theory Spec2Isabelle
  imports Main "HOL-Library.AList" "HOL-Library.Word"
begin

section \<open>Values\<close>

text \<open>
  The scalars a leaf can hold. Python's \<open>None\<close> is \<open>SNull\<close>; it is also what the
  \<open>value\<close> field of a node holds before anything is assigned. A Python float is an
  IEEE-754 double: the tree stores and returns it and never computes with it, so it is
  kept as its 64-bit pattern. Python's \<open>bool\<close> is a subclass of \<open>int\<close>; here the two
  are separate constructors, so the order of the tests in type inference is built in.
\<close>

datatype scalar = SNull | SBool bool | SInt int | SFloat "64 word" | SStr string

datatype scalar_type = TNull | TBool | TInt | TFloat | TStr

text \<open>
  A primitive: a scalar or a nested mapping, the shape of the argument of
  \<open>load_dict\<close> and of the results of \<open>get\<close> and \<open>to_dict\<close>. A Python \<open>dict\<close>
  keeps insertion order, so a mapping is an association list; its keys are scalars,
  since \<open>load_dict\<close> has to tell string keys from the others.
\<close>

datatype prim = Scalar scalar | Dict "(scalar \<times> prim) list"

datatype error =
    ConfigPathNotFoundError string
  | ConfigInvalidPathError string string
  | ConfigStrictModeError string
  | ConfigNodeStructureError string string
  | ConfigInvalidFormatError string

section \<open>Node\<close>

text \<open>
  Modelled from the spec: the class \<open>Node\<close> (module \<open>configx.core.node\<close>), which
  \<open>tree.py\<close> imports. Its fields are \<open>name\<close>, \<open>children\<close> (a dict from child name to
  child node), \<open>value\<close> (here \<open>val\<close>) and \<open>type\<close> (here \<open>type_tag\<close>, \<open>None\<close> until a
  value is assigned).
\<close>

datatype node =
  Node (name: string) (children: "(string \<times> node) list") (val: scalar)
       (type_tag: "scalar_type option")

text \<open>
  Modelled from the spec: the constructor call \<open>Node(name=part)\<close>, "a new empty
  interior Node": no children, no value, no type tag.
\<close>

definition new_node :: "string \<Rightarrow> node" where
  "new_node nm = Node nm [] SNull None"

text \<open>
  Modelled from the spec: \<open>Node.infer_type\<close>, the tag of a scalar by its intrinsic
  kind, boolean before integer.
\<close>

fun infer_type :: "scalar \<Rightarrow> scalar_type" where
  "infer_type (SBool b) = TBool"
| "infer_type (SInt i) = TInt"
| "infer_type (SFloat f) = TFloat"
| "infer_type (SStr s) = TStr"
| "infer_type SNull = TNull"

text \<open>
  Modelled from the spec: \<open>Node.to_primitive\<close>, "a scalar for a leaf, or a nested
  mapping (recursively built from children's own primitive projections) for an
  interior node. An interior node with no children projects to an empty mapping."
  A node without children is a leaf when a value has been assigned to it, which its
  type tag records.
\<close>

fun to_primitive :: "node \<Rightarrow> prim" where
  "to_primitive (Node nm cs v ty) =
     (if cs \<noteq> [] then Dict (map (\<lambda>(k, c). (SStr k, to_primitive c)) cs)
      else (case ty of Some tg \<Rightarrow> Scalar v | None \<Rightarrow> Dict []))"

text \<open>
  Modelled from the spec: \<open>Node.from_primitive\<close>, "scalars become leaf nodes with
  inferred type; nested mappings become interior nodes recursively built the same
  way", and a non-string key at any depth fails with the format error. The children
  are attached in the order of the mapping, by dict assignment.
\<close>

fun from_primitive :: "string \<Rightarrow> prim \<Rightarrow> error + node"
  and from_items :: "(scalar \<times> prim) list \<Rightarrow> (string \<times> node) list
        \<Rightarrow> error + (string \<times> node) list" where
  "from_primitive nm (Scalar s) = Inr (Node nm [] s (Some (infer_type s)))"
| "from_primitive nm (Dict kvs) =
     (case from_items kvs [] of
        Inl e \<Rightarrow> Inl e
      | Inr cs \<Rightarrow> Inr (Node nm cs SNull None))"
| "from_items [] acc = Inr acc"
| "from_items ((k, v) # kvs) acc =
     (case k of
        SStr s \<Rightarrow>
          (case from_primitive s v of
             Inl e \<Rightarrow> Inl e
           | Inr c \<Rightarrow> from_items kvs (AList.update s c acc))
      | _ \<Rightarrow> Inl (ConfigInvalidFormatError ''All keys must be strings.''))"

section \<open>ConfigTree\<close>

record config_tree =
  root :: node
  strict_mode :: bool

text \<open>\<open>ConfigTree(strict_mode)\<close>: a root node named "root" with no children.\<close>

definition init :: "bool \<Rightarrow> config_tree" where
  "init sm = \<lparr>root = new_node ''root'', strict_mode = sm\<rparr>"

subsection \<open>Paths\<close>

text \<open>
  A path is a Python \<open>str\<close> or \<open>None\<close>. Strings are lists of 8-bit characters, read as
  the code points below 256, so the whitespace that \<open>str.strip()\<close> removes is the
  whitespace among those: tab to carriage return, the four separators 28 to 31, the
  space, the next-line control 133 and the no-break space 160.
\<close>

definition is_space :: "char \<Rightarrow> bool" where
  "is_space c = (let n = (of_char c :: nat) in (9 \<le> n \<and> n \<le> 13) \<or> (28 \<le> n \<and> n \<le> 32) \<or> n = 133 \<or> n = 160)"

definition strip :: "string \<Rightarrow> string" where
  "strip s = rev (dropWhile is_space (rev (dropWhile is_space s)))"

text \<open>\<open>s.split(".")\<close>: the pieces between the dots, empty pieces included.\<close>

fun split_dot :: "string \<Rightarrow> string list" where
  "split_dot [] = [[]]"
| "split_dot (c # cs) =
     (if c = CHR ''.'' then [] # split_dot cs
      else (case split_dot cs of
              [] \<Rightarrow> [[c]]
            | w # ws \<Rightarrow> (c # w) # ws))"

text \<open>\<open>".".join(parts)\<close>.\<close>

fun join_dot :: "string list \<Rightarrow> string" where
  "join_dot [] = []"
| "join_dot [p] = p"
| "join_dot (p # q # ps) = p @ CHR ''.'' # join_dot (q # ps)"

text \<open>\<open>str(path)\<close>, the text the errors carry.\<close>

fun str :: "string option \<Rightarrow> string" where
  "str None = ''None''"
| "str (Some p) = p"

text \<open>\<open>ConfigTree._split\<close>.\<close>

definition split_path :: "string option \<Rightarrow> error + string list" where
  "split_path path =
     (case path of
        None \<Rightarrow> Inl (ConfigInvalidPathError (str path) ''Path cannot be None.'')
      | Some p \<Rightarrow>
          (let parts = filter (\<lambda>p. p \<noteq> []) (split_dot (strip p))
           in if length parts = 0
              then Inl (ConfigInvalidPathError p ''Path cannot be empty.'')
              else Inr parts))"

subsection \<open>Traversal\<close>

text \<open>
  \<open>node.children[part] = child\<close>: the node with that entry of its dict assigned. An
  existing key keeps its place, a new key goes to the end.
\<close>

definition put_child :: "node \<Rightarrow> string \<Rightarrow> node \<Rightarrow> node" where
  "put_child n part c = Node (name n) (AList.update part c (children n)) (val n) (type_tag n)"

text \<open>
  The loop of \<open>ConfigTree._walk\<close>, from the node the cursor is on and the parts still
  to consume. The source mutates the nodes in place and returns a reference; here the
  result is the node the loop started from, as the loop leaves it, and the node the
  walk ends on (\<open>None\<close> for Python's \<open>None\<close>). Nodes are created only when strict mode
  is off, and the only \<open>raise\<close> is under strict mode, so a walk that raises has not
  changed anything, and the error carries no tree.
\<close>

fun walk_loop :: "bool \<Rightarrow> bool \<Rightarrow> string \<Rightarrow> node \<Rightarrow> string list
      \<Rightarrow> error + (node \<times> node option)" where
  "walk_loop create_missing strict path n [] = Inr (n, Some n)"
| "walk_loop create_missing strict path n (part # rest) =
     (case map_of (children n) part of
        Some c \<Rightarrow>
          (case walk_loop create_missing strict path c rest of
             Inl e \<Rightarrow> Inl e
           | Inr (c', res) \<Rightarrow> Inr (put_child n part c', res))
      | None \<Rightarrow>
          if create_missing then
            if strict then Inl (ConfigStrictModeError path)
            else (case walk_loop create_missing strict path (new_node part) rest of
                    Inl e \<Rightarrow> Inl e
                  | Inr (c', res) \<Rightarrow> Inr (put_child n part c', res))
          else Inr (n, None))"

text \<open>
  \<open>ConfigTree._walk\<close>: the root after the walk, and the reference it returns: the
  parts that lead to the node from the root, with the node as it is read there.
\<close>

definition walk :: "config_tree \<Rightarrow> string option \<Rightarrow> bool
      \<Rightarrow> error + (node \<times> (string list \<times> node) option)" where
  "walk t path create_missing =
     (case split_path path of
        Inl e \<Rightarrow> Inl e
      | Inr parts \<Rightarrow>
          (case walk_loop create_missing (strict_mode t) (str path) (root t) parts of
             Inl e \<Rightarrow> Inl e
           | Inr (r, res) \<Rightarrow> Inr (r, map_option (Pair parts) res)))"

text \<open>
  A write through a reference: the node that the parts lead to is replaced by its
  image under \<open>f\<close>. Every node has one owner, so this is the only place it shows.
\<close>

fun update_at :: "node \<Rightarrow> string list \<Rightarrow> (node \<Rightarrow> node) \<Rightarrow> node" where
  "update_at n [] f = f n"
| "update_at n (part # rest) f =
     (case map_of (children n) part of
        Some c \<Rightarrow> put_child n part (update_at c rest f)
      | None \<Rightarrow> n)"

subsection \<open>Operations\<close>

text \<open>
  Every operation returns its result, or the error it raises, and the tree it leaves
  behind.
\<close>

text \<open>\<open>ConfigTree.get\<close>.\<close>

definition get :: "config_tree \<Rightarrow> string option \<Rightarrow> (error + prim) \<times> config_tree" where
  "get t path =
     (case walk t path False of
        Inl e \<Rightarrow> (Inl e, t)
      | Inr (r, None) \<Rightarrow> (Inl (ConfigPathNotFoundError (str path)), t\<lparr>root := r\<rparr>)
      | Inr (r, Some (loc, n)) \<Rightarrow> (Inr (to_primitive n), t\<lparr>root := r\<rparr>))"

text \<open>
  \<open>ConfigTree.set\<close>, for a scalar value. The assignment sets the value and the
  inferred type and empties the children.
\<close>

definition assign :: "scalar \<Rightarrow> node \<Rightarrow> node" where
  "assign v n = Node (name n) [] v (Some (infer_type v))"

definition set_value :: "config_tree \<Rightarrow> string option \<Rightarrow> scalar
      \<Rightarrow> (error + scalar) \<times> config_tree" where
  "set_value t path v =
     (case split_path path of
        Inl e \<Rightarrow> (Inl e, t)
      | Inr parts \<Rightarrow>
          if parts = [] then
            (Inl (ConfigInvalidPathError (str path) ''Empty path is not allowed.''), t)
          else
            (case walk t path True of
               Inl e \<Rightarrow> (Inl e, t)
             | Inr (r, None) \<Rightarrow> (Inl (ConfigPathNotFoundError (str path)), t\<lparr>root := r\<rparr>)
             | Inr (r, Some (loc, n)) \<Rightarrow>
                 if length (children n) > 0 then
                   (Inl (ConfigNodeStructureError (str path)
                      ''Cannot assign value to an interior node; it has children.''),
                    t\<lparr>root := r\<rparr>)
                 else (Inr v, t\<lparr>root := update_at r loc (assign v)\<rparr>)))"

text \<open>\<open>ConfigTree.delete\<close>.\<close>

definition pop_child :: "string \<Rightarrow> node \<Rightarrow> node" where
  "pop_child key n = Node (name n) (AList.delete key (children n)) (val n) (type_tag n)"

definition delete :: "config_tree \<Rightarrow> string option \<Rightarrow> (error + bool) \<times> config_tree" where
  "delete t path =
     (case split_path path of
        Inl e \<Rightarrow> (Inl e, t)
      | Inr parts \<Rightarrow>
          if length parts = 1 \<and> parts ! 0 = ''root'' then
            (Inl (ConfigNodeStructureError (str path) ''Cannot delete root node.''), t)
          else
            (let parent_path = join_dot (butlast parts) in
             case (if parent_path \<noteq> [] then walk t (Some parent_path) False
                   else Inr (root t, Some ([], root t))) of
               Inl e \<Rightarrow> (Inl e, t)
             | Inr (r, None) \<Rightarrow> (Inr False, t\<lparr>root := r\<rparr>)
             | Inr (r, Some (loc, parent)) \<Rightarrow>
                 (let key = last parts in
                  if map_of (children parent) key = None then (Inr False, t\<lparr>root := r\<rparr>)
                  else (Inr True, t\<lparr>root := update_at r loc (pop_child key)\<rparr>))))"

text \<open>\<open>ConfigTree.to_dict\<close>.\<close>

definition to_dict :: "config_tree \<Rightarrow> prim" where
  "to_dict t = (if children (root t) \<noteq> [] then to_primitive (root t) else Dict [])"

text \<open>
  \<open>ConfigTree.load_dict\<close>: the type test, the new root, then the loop over the items,
  which tests each key as it reaches it.
\<close>

fun load_items :: "config_tree \<Rightarrow> (scalar \<times> prim) list \<Rightarrow> (error + unit) \<times> config_tree" where
  "load_items t [] = (Inr (), t)"
| "load_items t ((key, v) # rest) =
     (case key of
        SStr k \<Rightarrow>
          (case from_primitive k v of
             Inl e \<Rightarrow> (Inl e, t)
           | Inr c \<Rightarrow> load_items (t\<lparr>root := put_child (root t) k c\<rparr>) rest)
      | _ \<Rightarrow> (Inl (ConfigInvalidFormatError ''All keys must be strings.''), t))"

definition load_dict :: "config_tree \<Rightarrow> prim \<Rightarrow> (error + unit) \<times> config_tree" where
  "load_dict t data =
     (case data of
        Scalar s \<Rightarrow> (Inl (ConfigInvalidFormatError ''Top-level configuration must be a dict.''), t)
      | Dict kvs \<Rightarrow> load_items (t\<lparr>root := new_node ''root''\<rparr>) kvs)"

text \<open>\<open>ConfigTree.set_strict_mode\<close>.\<close>

definition set_strict_mode :: "config_tree \<Rightarrow> bool \<Rightarrow> config_tree" where
  "set_strict_mode t enabled = t\<lparr>strict_mode := enabled\<rparr>"

subsection \<open>Reading a tree\<close>

text \<open>
  The node that a list of parts leads to, without touching the tree. It is what the
  walk finds when it creates nothing; the lemmas below relate the two.
\<close>

fun node_at :: "node \<Rightarrow> string list \<Rightarrow> node option" where
  "node_at n [] = Some n"
| "node_at n (part # rest) =
     (case map_of (children n) part of
        Some c \<Rightarrow> node_at c rest
      | None \<Rightarrow> None)"

section \<open>Properties of the traversal\<close>

lemma put_child_same: "map_of (children n) part = Some c \<Longrightarrow> put_child n part c = n"
  by (simp add: put_child_def AList.update_triv)

lemma children_put_child: "map_of (children (put_child n part c)) part = Some c"
  by (simp add: put_child_def AList.update_conv')

lemma update_absent: "map_of al k = None \<Longrightarrow> AList.update k v al = al @ [(k, v)]"
  by (induction al) (auto split: if_splits)

text \<open>A walk that may not create reads the tree and leaves it as it is.\<close>

lemma walk_loop_read: "walk_loop False s path n parts = Inr (n, node_at n parts)"
  by (induction parts arbitrary: n) (auto simp: put_child_same split: option.splits)

text \<open>A walk along parts that all exist changes nothing, whatever its flags.\<close>

lemma walk_loop_found:
  "node_at n parts = Some m \<Longrightarrow> walk_loop cm s path n parts = Inr (n, Some m)"
  by (induction parts arbitrary: n) (auto simp: put_child_same split: option.splits)

text \<open>The node a walk returns is the one its parts lead to in the tree it leaves.\<close>

lemma walk_loop_result:
  "walk_loop cm s path n parts = Inr (n', res) \<Longrightarrow> res = node_at n' parts"
proof (induction parts arbitrary: n n' res)
  case Nil
  then show ?case by auto
next
  case (Cons part rest)
  show ?case
  proof (cases "map_of (children n) part")
    case None
    show ?thesis
    proof (cases cm)
      case False
      with Cons.prems None show ?thesis by auto
    next
      case True
      with Cons.prems None obtain c' where
        w: "walk_loop cm s path (new_node part) rest = Inr (c', res)"
        and n': "n' = put_child n part c'"
        by (auto split: if_splits sum.splits)
      from Cons.IH [OF w] n' show ?thesis by (simp add: children_put_child)
    qed
  next
    case (Some c)
    with Cons.prems obtain c' where
      w: "walk_loop cm s path c rest = Inr (c', res)" and n': "n' = put_child n part c'"
      by (auto split: sum.splits)
    from Cons.IH [OF w] n' show ?thesis by (simp add: children_put_child)
  qed
qed

text \<open>Under strict mode a creating walk raises as soon as a part is missing.\<close>

lemma walk_loop_strict:
  "node_at n parts = None \<Longrightarrow>
   walk_loop True True path n parts = Inl (ConfigStrictModeError path)"
  by (induction parts arbitrary: n) (auto split: option.splits)

text \<open>Without strict mode a creating walk always ends on a node.\<close>

lemma walk_loop_create:
  "\<exists>n' m. walk_loop True False path n parts = Inr (n', Some m)"
proof (induction parts arbitrary: n)
  case Nil
  show ?case by simp
next
  case (Cons part rest)
  show ?case
  proof (cases "map_of (children n) part")
    case None
    from Cons.IH [of "new_node part"] obtain c' m where
      "walk_loop True False path (new_node part) rest = Inr (c', Some m)" by blast
    with None show ?thesis by simp
  next
    case (Some c)
    from Cons.IH [of c] obtain c' m where
      "walk_loop True False path c rest = Inr (c', Some m)" by blast
    with Some show ?thesis by simp
  qed
qed

lemma node_at_update_at:
  "node_at n parts = Some m \<Longrightarrow> node_at (update_at n parts f) parts = Some (f m)"
  by (induction parts arbitrary: n) (auto simp: children_put_child split: option.splits)

lemma node_at_update_at_below:
  "node_at n parts = Some m \<Longrightarrow>
   node_at (update_at n parts f) (parts @ below) = node_at (f m) below"
  by (induction parts arbitrary: n) (auto simp: children_put_child split: option.splits)

lemma put_child_twice: "put_child (put_child n k c) k c' = put_child n k c'"
  by (simp add: put_child_def)

lemma children_new_node: "children (new_node p) = []"
  by (simp add: new_node_def)

lemma put_child_absent:
  "map_of (children n) k = None \<Longrightarrow>
   put_child n k c = Node (name n) (children n @ [(k, c)]) (val n) (type_tag n)"
  by (simp add: put_child_def update_absent)

lemma to_primitive_assign: "to_primitive (assign v n) = Scalar v"
  by (simp add: assign_def)

section \<open>Properties of the operations\<close>

lemma split_path_nonempty: "split_path path = Inr parts \<Longrightarrow> parts \<noteq> []"
  by (auto simp: split_path_def Let_def split: option.splits if_splits)

text \<open>\<open>set\<close> and \<open>get\<close> on a path that splits, with the walk written as its loop.\<close>

lemma set_value_unfold:
  assumes "split_path path = Inr parts"
  shows "set_value t path v =
    (case walk_loop True (strict_mode t) (str path) (root t) parts of
       Inl e \<Rightarrow> (Inl e, t)
     | Inr (r, None) \<Rightarrow> (Inl (ConfigPathNotFoundError (str path)), t\<lparr>root := r\<rparr>)
     | Inr (r, Some n) \<Rightarrow>
         if children n \<noteq> [] then
           (Inl (ConfigNodeStructureError (str path)
              ''Cannot assign value to an interior node; it has children.''),
            t\<lparr>root := r\<rparr>)
         else (Inr v, t\<lparr>root := update_at r parts (assign v)\<rparr>))"
  using assms split_path_nonempty [OF assms]
  by (simp add: set_value_def walk_def split: sum.split option.split prod.split)

lemma get_unfold:
  assumes "split_path path = Inr parts"
  shows "get t path =
    (case node_at (root t) parts of
       None \<Rightarrow> (Inl (ConfigPathNotFoundError (str path)), t)
     | Some n \<Rightarrow> (Inr (to_primitive n), t))"
  using assms
  by (simp add: get_def walk_def walk_loop_read split: option.split)

text \<open>Without strict mode, a write to a missing child of the root, or one level below.\<close>

lemma set_new_leaf:
  assumes "\<not> strict_mode t" and "map_of (children (root t)) k = None"
    and "split_path path = Inr [k]"
  shows "set_value t path v = (Inr v, t\<lparr>root := put_child (root t) k (assign v (new_node k))\<rparr>)"
  using assms
  by (simp add: set_value_def walk_def children_put_child put_child_twice children_new_node)

lemma set_new_leaf_below:
  assumes "\<not> strict_mode t" and "map_of (children (root t)) k = None"
    and "split_path path = Inr [k, l]"
  shows "set_value t path v =
    (Inr v, t\<lparr>root := put_child (root t) k (put_child (new_node k) l (assign v (new_node l)))\<rparr>)"
  using assms
  by (simp add: set_value_def walk_def children_put_child put_child_twice children_new_node)

subsection \<open>Deletion along a parent path that splits back\<close>

lemma split_path_not_blank: "split_path (Some []) = Inr parts \<Longrightarrow> False"
  by (simp add: split_path_def strip_def)

lemma pop_child_gone: "map_of (children (pop_child key n)) key = None"
  by (simp add: pop_child_def AList.delete_conv')

text \<open>
  \<open>delete\<close> joins the parts of the parent and hands the string to the walk, which
  strips and splits it again. When that gives back the parts of the parent, \<open>delete\<close>
  is the removal one expects: it fails to find an absent path, and after it has removed
  a node, neither the node nor anything below it can be read.
\<close>

lemma delete_unfold:
  assumes sp: "split_path path = Inr parts" and nr: "parts \<noteq> [''root'']"
    and pp: "butlast parts = [] \<or> split_path (Some (join_dot (butlast parts))) = Inr (butlast parts)"
  shows "delete t path =
    (case node_at (root t) (butlast parts) of
       None \<Rightarrow> (Inr False, t)
     | Some parent \<Rightarrow>
         if map_of (children parent) (last parts) = None then (Inr False, t)
         else (Inr True, t\<lparr>root := update_at (root t) (butlast parts) (pop_child (last parts))\<rparr>))"
proof (cases "butlast parts = []")
  case True
  with split_path_nonempty [OF sp] obtain p where p: "parts = [p]"
    by (cases parts) (auto split: if_splits)
  with nr have "p \<noteq> ''root''" by simp
  with sp p show ?thesis
    by (simp add: delete_def Let_def)
next
  case False
  then have len: "length parts \<noteq> 1"
    by (cases parts) auto
  from False pp have ps: "split_path (Some (join_dot (butlast parts))) = Inr (butlast parts)"
    by simp
  then have "join_dot (butlast parts) \<noteq> []"
    using split_path_not_blank by force
  with sp len ps show ?thesis
    by (simp add: delete_def walk_def walk_loop_read Let_def split: option.split)
qed

lemma delete_then_get:
  assumes sp: "split_path path = Inr parts" 
    and pp: "butlast parts = [] \<or> split_path (Some (join_dot (butlast parts))) = Inr (butlast parts)"
    and d: "delete t path = (Inr True, t')"
    and q: "split_path q = Inr (parts @ below)"
  shows "get t' q = (Inl (ConfigPathNotFoundError (str q)), t')"
proof -
  have ne: "parts \<noteq> []" using sp by (rule split_path_nonempty)
  have nr: "parts \<noteq> [''root'']"
    using d sp by (auto simp: delete_def)
  note u = delete_unfold [OF sp nr pp, of t]
  from d u obtain parent where
    p: "node_at (root t) (butlast parts) = Some parent"
    and t': "t' = t\<lparr>root := update_at (root t) (butlast parts) (pop_child (last parts))\<rparr>"
    by (auto split: option.splits if_splits)
  from ne have e: "parts @ below = butlast parts @ (last parts # below)"
    by simp
  have "node_at (root t') (butlast parts @ (last parts # below)) =
      node_at (pop_child (last parts) parent) (last parts # below)"
    by (simp add: t' node_at_update_at_below [OF p] del: node_at.simps)
  then have "node_at (root t') (parts @ below) =
      node_at (pop_child (last parts) parent) (last parts # below)"
    by (simp only: e)
  then have "node_at (root t') (parts @ below) = None"
    by (simp add: pop_child_gone)
  then show ?thesis
    by (simp add: get_unfold [OF q])
qed

lemma node_at_append:
  "node_at n (ps @ qs) = (case node_at n ps of None \<Rightarrow> None | Some m \<Rightarrow> node_at m qs)"
  by (induction ps arbitrary: n) (auto split: option.splits)

lemma delete_absent:
  assumes sp: "split_path path = Inr parts" and nr: "parts \<noteq> [''root'']"
    and pp: "butlast parts = [] \<or> split_path (Some (join_dot (butlast parts))) = Inr (butlast parts)"
    and a: "node_at (root t) parts = None"
  shows "delete t path = (Inr False, t)"
proof -
  have ne: "parts \<noteq> []" using sp by (rule split_path_nonempty)
  then have "parts = butlast parts @ [last parts]" by simp
  then have "node_at (root t) (butlast parts @ [last parts]) = None"
    using a by simp
  then show ?thesis
    by (auto simp: delete_unfold [OF sp nr pp] node_at_append split: option.splits)
qed

section \<open>The paths of the examples\<close>

lemma split_a: "split_path (Some ''a'') = Inr [''a'']"
  by code_simp

lemma split_a_b: "split_path (Some ''a.b'') = Inr [''a'', ''b'']"
  by code_simp

lemma split_x: "split_path (Some ''x'') = Inr [''x'']"
  by code_simp

lemma split_x_y: "split_path (Some ''x.y'') = Inr [''x'', ''y'']"
  by code_simp

lemma split_root: "split_path (Some ''root'') = Inr [''root'']"
  by code_simp

lemma split_root_x: "split_path (Some ''root.x'') = Inr [''root'', ''x'']"
  by code_simp

lemma split_server_port: "split_path (Some ''server.port'') = Inr [''server'', ''port'']"
  by code_simp

lemma split_a_sp_b: "split_path (Some ''a . b'') = Inr [''a '', '' b'']"
  by code_simp
lemma split_a_dot_sp_b: "split_path (Some ''a. b'') = Inr [''a'', '' b'']"
  by code_simp
lemma split_a_sp: "split_path (Some ''a '') = Inr [''a'']"
  by code_simp
lemma split_a_sp_dot_b: "split_path (Some ''a .b'') = Inr [''a '', ''b'']"
  by code_simp
lemma split_dot_sp_dot_b: "split_path (Some ''. .b'') = Inr ['' '', ''b'']"
  by code_simp
lemma split_sp: "split_path (Some '' '') = Inl (ConfigInvalidPathError '' '' ''Path cannot be empty.'')"
  by code_simp

lemmas op_defs = set_value_def get_def delete_def walk_def init_def new_node_def
  put_child_def pop_child_def assign_def load_dict_def to_dict_def

section \<open>The mutual exclusion of value and children\<close>

text \<open>
  C1. The claim: after any sequence of public operations from a fresh tree, a node with
  children holds no value and a node holding a value has no children; in particular a
  \<open>set\<close> on a path that extends the path of a leaf must not leave a node with both.
  The docstring of \<open>set\<close> promises that "a leaf with a value cannot become interior
  with children". The code does not keep it: on a fresh tree without strict mode,
  \<open>set("a", 1)\<close> then \<open>set("a.b", 2)\<close> both succeed, and the node \<open>a\<close> ends with the
  value 1, the type tag of an integer and the child \<open>b\<close>.
\<close>

theorem set_below_leaf_keeps_value_and_adds_child:
  "set_value (snd (set_value (init False) (Some ''a'') (SInt 1))) (Some ''a.b'') (SInt 2) =
     (Inr (SInt 2),
      \<lparr>root = Node ''root''
         [(''a'', Node ''a'' [(''b'', Node ''b'' [] (SInt 2) (Some TInt))] (SInt 1) (Some TInt))]
         SNull None,
       strict_mode = False\<rparr>)"
  by (simp add: op_defs split_a split_a_b)

section \<open>Bulk load\<close>

text \<open>
  C2. The claim: \<open>load_dict\<close> fails with the format error when the data is not a mapping
  or a top-level key is not a string, and every failure leaves the tree as it was. The
  type test does come before the new root. The test of the keys does not: it is inside
  the loop that fills the new root. On the tree of \<open>set("a.b", 1)\<close>, loading
  \<open>{"p": 1, 5: 2}\<close> raises the format error at the key 5 and leaves a tree that holds
  \<open>p\<close> alone: the old content is gone and half of the new content is in.
\<close>

theorem load_dict_bad_key_replaces_tree:
  "to_dict \<lparr>root = Node ''root''
       [(''a'', Node ''a'' [(''b'', Node ''b'' [] (SInt 1) (Some TInt))] SNull None)] SNull None,
     strict_mode = False\<rparr> = Dict [(SStr ''a'', Dict [(SStr ''b'', Scalar (SInt 1))])] \<and>
   load_dict \<lparr>root = Node ''root''
       [(''a'', Node ''a'' [(''b'', Node ''b'' [] (SInt 1) (Some TInt))] SNull None)] SNull None,
     strict_mode = False\<rparr>
     (Dict [(SStr ''p'', Scalar (SInt 1)), (SInt 5, Scalar (SInt 2))]) =
     (Inl (ConfigInvalidFormatError ''All keys must be strings.''),
      \<lparr>root = Node ''root'' [(''p'', Node ''p'' [] (SInt 1) (Some TInt))] SNull None,
       strict_mode = False\<rparr>) \<and>
   to_dict \<lparr>root = Node ''root'' [(''p'', Node ''p'' [] (SInt 1) (Some TInt))] SNull None,
     strict_mode = False\<rparr> = Dict [(SStr ''p'', Scalar (SInt 1))]"
  by (simp add: load_dict_def to_dict_def new_node_def put_child_def)

section \<open>Strict mode\<close>

text \<open>
  C4. With strict mode on and no node \<open>x\<close> under the root, \<open>set("x.y", 1)\<close> raises the
  strict-mode error, which carries the whole path \<open>x.y\<close>, and the tree is as before.
  With strict mode off the same call returns 1 and appends to the root the interior
  node \<open>x\<close> (no value, no type tag) whose only child is the leaf \<open>y\<close> holding the
  integer 1.
\<close>

theorem set_x_y_strict_policy:
  assumes "map_of (children (root t)) ''x'' = None"
  shows "set_value t (Some ''x.y'') (SInt 1) =
    (if strict_mode t then (Inl (ConfigStrictModeError ''x.y''), t)
     else (Inr (SInt 1),
           t\<lparr>root := Node (name (root t))
                (children (root t) @
                   [(''x'', Node ''x'' [(''y'', Node ''y'' [] (SInt 1) (Some TInt))] SNull None)])
                (val (root t)) (type_tag (root t))\<rparr>))"
proof (cases "strict_mode t")
  case True
  with assms show ?thesis
    by (simp add: set_value_def walk_def split_x_y)
next
  case False
  have "put_child (new_node ''x'') ''y'' (assign (SInt 1) (new_node ''y'')) =
        Node ''x'' [(''y'', Node ''y'' [] (SInt 1) (Some TInt))] SNull None"
    by (simp add: put_child_def new_node_def assign_def)
  with False assms show ?thesis
    by (simp add: set_new_leaf_below [OF False assms split_x_y] put_child_absent)
qed

theorem set_x_y_strict_policy_witness:
  "set_value (init True) (Some ''x.y'') (SInt 1) =
     (Inl (ConfigStrictModeError ''x.y''), init True) \<and>
   set_value (init False) (Some ''x.y'') (SInt 1) =
     (Inr (SInt 1),
      \<lparr>root = Node ''root''
         [(''x'', Node ''x'' [(''y'', Node ''y'' [] (SInt 1) (Some TInt))] SNull None)]
         SNull None,
       strict_mode = False\<rparr>)"
proof -
  have a: "map_of (children (root (init b))) ''x'' = None" for b
    by (simp add: init_def new_node_def)
  show ?thesis
    using set_x_y_strict_policy [OF a [of True]] set_x_y_strict_policy [OF a [of False]]
    by (simp add: init_def new_node_def)
qed

text \<open>
  C9. With strict mode on, \<open>set\<close> on a path that does not resolve raises the strict-mode
  error and leaves the tree as it was, whichever part is the missing one: the last part
  is treated like the parts before it. On the empty strict tree \<open>set("x", 1)\<close> raises.
\<close>

theorem strict_set_of_missing_path:
  assumes "strict_mode t" and "walk t path False = Inr (r, None)"
  shows "set_value t path v = (Inl (ConfigStrictModeError (str path)), t)"
proof -
  from assms(2) obtain parts where sp: "split_path path = Inr parts"
    by (auto simp: walk_def split: sum.splits)
  with assms(2) have "node_at (root t) parts = None"
    by (auto simp: walk_def walk_loop_read)
  then have "walk_loop True True (str path) (root t) parts =
      Inl (ConfigStrictModeError (str path))"
    by (rule walk_loop_strict)
  with assms(1) show ?thesis
    by (simp add: set_value_unfold [OF sp])
qed

theorem strict_set_of_missing_path_witness:
  "strict_mode (init True) \<and>
   walk (init True) (Some ''x'') False = Inr (root (init True), None) \<and>
   set_value (init True) (Some ''x'') (SInt 1) = (Inl (ConfigStrictModeError ''x''), init True)"
proof -
  have s: "strict_mode (init True)"
    by (simp add: init_def)
  have w: "walk (init True) (Some ''x'') False = Inr (root (init True), None)"
    by (simp add: walk_def split_x init_def new_node_def)
  from strict_set_of_missing_path [OF s w, of "SInt 1"] s w show ?thesis
    by simp
qed

section \<open>Writing and reading back\<close>

lemma node_at_new_node: "parts \<noteq> [] \<Longrightarrow> node_at (new_node p) parts = None"
  by (cases parts) (simp_all add: new_node_def)

text \<open>A creating walk along a path that did not resolve ends on a node it has made.\<close>

lemma walk_loop_ends_on_new_node:
  "node_at n parts = None \<Longrightarrow> walk_loop True False path n parts = Inr (n', Some m) \<Longrightarrow>
   m = new_node (last parts)"
proof (induction parts arbitrary: n n')
  case Nil
  then show ?case by simp
next
  case (Cons part rest)
  show ?case
  proof (cases "map_of (children n) part")
    case (Some c)
    with Cons.prems(1) have a: "node_at c rest = None" by simp
    then have ne: "rest \<noteq> []" by auto
    from Cons.prems(2) Some obtain c' where
      "walk_loop True False path c rest = Inr (c', Some m)"
      by (auto split: sum.splits)
    from Cons.IH [OF a this] ne show ?thesis by simp
  next
    case None
    with Cons.prems(2) obtain c' where
      w: "walk_loop True False path (new_node part) rest = Inr (c', Some m)"
      by (auto split: sum.splits)
    show ?thesis
    proof (cases "rest = []")
      case True
      with w show ?thesis by auto
    next
      case False
      from Cons.IH [OF node_at_new_node [OF False] w] False show ?thesis by simp
    qed
  qed
qed

text \<open>When \<open>set\<close> returns.\<close>

lemma set_value_returns:
  assumes w: "walk t path False = Inr (r, res)"
    and c: "case res of None \<Rightarrow> \<not> strict_mode t | Some (loc, n) \<Rightarrow> children n = []"
  shows "\<exists>t'. set_value t path v = (Inr v, t')"
proof -
  from w obtain parts where sp: "split_path path = Inr parts"
    by (auto simp: walk_def split: sum.splits)
  with w have res: "res = map_option (Pair parts) (node_at (root t) parts)"
    by (auto simp: walk_def walk_loop_read)
  show ?thesis
  proof (cases "node_at (root t) parts")
    case None
    with res c have ns: "\<not> strict_mode t" by simp
    from walk_loop_create obtain n' m where
      wl: "walk_loop True False (str path) (root t) parts = Inr (n', Some m)" by blast
    from walk_loop_ends_on_new_node [OF None wl] have "children m = []"
      by (simp add: new_node_def)
    with ns wl show ?thesis
      by (simp add: set_value_unfold [OF sp])
  next
    case (Some n)
    with res c have "children n = []" by simp
    with walk_loop_found [OF Some] show ?thesis
      by (simp add: set_value_unfold [OF sp])
  qed
qed

text \<open>What \<open>get\<close> reads after a \<open>set\<close> that returned.\<close>

lemma get_after_set:
  assumes "set_value t path v = (Inr r, t')"
  shows "r = v \<and> get t' path = (Inr (Scalar v), t')"
proof -
  from assms obtain parts where sp: "split_path path = Inr parts"
    by (cases "split_path path") (simp_all add: set_value_def)
  show ?thesis
  proof (cases "walk_loop True (strict_mode t) (str path) (root t) parts")
    case (Inl e)
    with assms show ?thesis by (simp add: set_value_unfold [OF sp])
  next
    case (Inr p)
    obtain r0 res where p: "p = (r0, res)" by (cases p)
    show ?thesis
    proof (cases res)
      case None
      with assms Inr p show ?thesis by (simp add: set_value_unfold [OF sp])
    next
      case (Some n)
      with Inr p have w:
        "walk_loop True (strict_mode t) (str path) (root t) parts = Inr (r0, Some n)"
        by simp
      from assms have t': "t' = t\<lparr>root := update_at r0 parts (assign v)\<rparr>" and r: "r = v"
        by (auto simp: set_value_unfold [OF sp] w split: if_splits)
      from walk_loop_result [OF w] have "node_at r0 parts = Some n" by simp
      then have "node_at (root t') parts = Some (assign v n)"
        by (simp add: t' node_at_update_at)
      then have "get t' path = (Inr (Scalar v), t')"
        by (simp add: get_unfold [OF sp] to_primitive_assign)
      with r show ?thesis by simp
    qed
  qed
qed

text \<open>On a fresh tree without strict mode every valid path can be written and read back.\<close>

lemma fresh_set_then_get:
  assumes sp: "split_path path = Inr parts"
  shows "fst (set_value (init False) path v) = Inr v \<and>
         get (snd (set_value (init False) path v)) path =
           (Inr (Scalar v), snd (set_value (init False) path v))"
proof -
  have "node_at (root (init False)) parts = None"
    using split_path_nonempty [OF sp] by (simp add: init_def node_at_new_node)
  then have w: "walk (init False) path False = Inr (root (init False), None)"
    by (simp add: walk_def sp walk_loop_read)
  have "case None of None \<Rightarrow> \<not> strict_mode (init False) | Some (loc, n) \<Rightarrow> children n = []"
    by (simp add: init_def)
  from set_value_returns [OF w this, of v] obtain t' where
    s: "set_value (init False) path v = (Inr v, t')" by blast
  from get_after_set [OF s] s show ?thesis by simp
qed

text \<open>
  C5. The claim: for every valid path \<open>p\<close> and scalar \<open>v\<close>, \<open>set(p, v)\<close> followed by
  \<open>get(p)\<close> returns \<open>v\<close> with its kind. As the code has it, \<open>set\<close> refuses two kinds of
  write, and the claim holds for all the others: let \<open>p\<close> be a valid path that either
  resolves to a node without children, or does not resolve while strict mode is off.
  Then \<open>set(p, v)\<close> returns \<open>v\<close>, and \<open>get(p)\<close> on the tree it leaves returns the scalar
  \<open>v\<close> itself, of the kind it had: the integer 8080 comes back as an integer, not as the
  string "8080". On a fresh tree without strict mode these are all the valid paths
  (lemma \<open>fresh_set_then_get\<close>).
\<close>

theorem set_then_get_where_set_returns:
  assumes "walk t path False = Inr (r, res)"
    and "case res of None \<Rightarrow> \<not> strict_mode t | Some (loc, n) \<Rightarrow> children n = []"
  shows "fst (set_value t path v) = Inr v \<and>
         get (snd (set_value t path v)) path = (Inr (Scalar v), snd (set_value t path v))"
proof -
  from set_value_returns [OF assms, of v] obtain t' where
    s: "set_value t path v = (Inr v, t')" by blast
  from get_after_set [OF s] s show ?thesis by simp
qed

theorem set_then_get_where_set_returns_witness:
  "walk (init False) (Some ''server.port'') False = Inr (root (init False), None) \<and>
   \<not> strict_mode (init False) \<and>
   set_value (init False) (Some ''server.port'') (SInt 8080) =
     (Inr (SInt 8080),
      \<lparr>root = Node ''root''
         [(''server'', Node ''server'' [(''port'', Node ''port'' [] (SInt 8080) (Some TInt))]
             SNull None)] SNull None,
       strict_mode = False\<rparr>) \<and>
   fst (get \<lparr>root = Node ''root''
         [(''server'', Node ''server'' [(''port'', Node ''port'' [] (SInt 8080) (Some TInt))]
             SNull None)] SNull None,
       strict_mode = False\<rparr> (Some ''server.port'')) = Inr (Scalar (SInt 8080)) \<and>
   Scalar (SInt 8080) \<noteq> Scalar (SStr ''8080'')"
proof -
  have w: "walk (init False) (Some ''server.port'') False = Inr (root (init False), None)"
    by (simp add: walk_def split_server_port init_def new_node_def)
  have c: "case None of None \<Rightarrow> \<not> strict_mode (init False)
           | Some (loc, n) \<Rightarrow> children n = []"
    by (simp add: init_def)
  have s: "set_value (init False) (Some ''server.port'') (SInt 8080) =
     (Inr (SInt 8080),
      \<lparr>root = Node ''root''
         [(''server'', Node ''server'' [(''port'', Node ''port'' [] (SInt 8080) (Some TInt))]
             SNull None)] SNull None,
       strict_mode = False\<rparr>)"
    by (simp add: op_defs split_server_port)
  have ns: "\<not> strict_mode (init False)"
    by (simp add: init_def)
  from set_then_get_where_set_returns [OF w c, of "SInt 8080"]
  have "get (snd (set_value (init False) (Some ''server.port'') (SInt 8080)))
          (Some ''server.port'') =
        (Inr (Scalar (SInt 8080)),
         snd (set_value (init False) (Some ''server.port'') (SInt 8080)))"
    by (rule conjunct2)
  then have "fst (get \<lparr>root = Node ''root''
         [(''server'', Node ''server'' [(''port'', Node ''port'' [] (SInt 8080) (Some TInt))]
             SNull None)] SNull None,
       strict_mode = False\<rparr> (Some ''server.port'')) = Inr (Scalar (SInt 8080))"
    by (simp add: s)
  with w ns s show ?thesis
    by simp
qed

text \<open>
  The claim as it is written, for every tree, fails at the two guards of \<open>set\<close>. In the
  tree of \<open>set("a.b", 1)\<close>, \<open>set("a", 2)\<close> raises the structure error and \<open>get("a")\<close>
  returns the mapping with \<open>b\<close>, not 2. In the empty strict tree, \<open>set("x", 1)\<close> raises
  the strict-mode error and \<open>get("x")\<close> raises the not-found error.
\<close>

theorem set_then_get_counterexample:
  "set_value \<lparr>root = Node ''root''
         [(''a'', Node ''a'' [(''b'', Node ''b'' [] (SInt 1) (Some TInt))] SNull None)]
         SNull None,
       strict_mode = False\<rparr> (Some ''a'') (SInt 2) =
     (Inl (ConfigNodeStructureError ''a''
        ''Cannot assign value to an interior node; it has children.''),
      \<lparr>root = Node ''root''
         [(''a'', Node ''a'' [(''b'', Node ''b'' [] (SInt 1) (Some TInt))] SNull None)]
         SNull None,
       strict_mode = False\<rparr>) \<and>
   fst (get \<lparr>root = Node ''root''
         [(''a'', Node ''a'' [(''b'', Node ''b'' [] (SInt 1) (Some TInt))] SNull None)]
         SNull None,
       strict_mode = False\<rparr> (Some ''a'')) = Inr (Dict [(SStr ''b'', Scalar (SInt 1))]) \<and>
   Dict [(SStr ''b'', Scalar (SInt 1))] \<noteq> Scalar (SInt 2) \<and>
   set_value (init True) (Some ''x'') (SInt 1) = (Inl (ConfigStrictModeError ''x''), init True) \<and>
   fst (get (init True) (Some ''x'')) = Inl (ConfigPathNotFoundError ''x'')"
  by (simp add: op_defs split_a split_x)

text \<open>
  C6. When the path of \<open>set(p, v)\<close> resolves to a node that has children, \<open>set\<close> raises
  the structure error and the tree is exactly as before, so nothing below that node is
  lost. After \<open>set("a.b", 1)\<close>, \<open>set("a", 2)\<close> raises and \<open>get("a.b")\<close> is still 1.
\<close>

theorem set_on_interior_node:
  assumes "walk t path False = Inr (r, Some (loc, n))" and "children n \<noteq> []"
  shows "set_value t path v =
           (Inl (ConfigNodeStructureError (str path)
              ''Cannot assign value to an interior node; it has children.''), t)"
proof -
  from assms(1) obtain parts where sp: "split_path path = Inr parts"
    by (auto simp: walk_def split: sum.splits)
  with assms(1) have "node_at (root t) parts = Some n"
    by (auto simp: walk_def walk_loop_read)
  then have "walk_loop True (strict_mode t) (str path) (root t) parts = Inr (root t, Some n)"
    by (rule walk_loop_found)
  with assms(2) show ?thesis
    by (simp add: set_value_unfold [OF sp])
qed

theorem set_on_interior_node_witness:
  "set_value (init False) (Some ''a.b'') (SInt 1) =
     (Inr (SInt 1),
      \<lparr>root = Node ''root''
         [(''a'', Node ''a'' [(''b'', Node ''b'' [] (SInt 1) (Some TInt))] SNull None)]
         SNull None,
       strict_mode = False\<rparr>) \<and>
   set_value \<lparr>root = Node ''root''
         [(''a'', Node ''a'' [(''b'', Node ''b'' [] (SInt 1) (Some TInt))] SNull None)]
         SNull None,
       strict_mode = False\<rparr> (Some ''a'') (SInt 2) =
     (Inl (ConfigNodeStructureError ''a''
        ''Cannot assign value to an interior node; it has children.''),
      \<lparr>root = Node ''root''
         [(''a'', Node ''a'' [(''b'', Node ''b'' [] (SInt 1) (Some TInt))] SNull None)]
         SNull None,
       strict_mode = False\<rparr>) \<and>
   fst (get \<lparr>root = Node ''root''
         [(''a'', Node ''a'' [(''b'', Node ''b'' [] (SInt 1) (Some TInt))] SNull None)]
         SNull None,
       strict_mode = False\<rparr> (Some ''a.b'')) = Inr (Scalar (SInt 1))"
proof -
  let ?a = "Node ''a'' [(''b'', Node ''b'' [] (SInt 1) (Some TInt))] SNull None"
  let ?t = "\<lparr>root = Node ''root'' [(''a'', ?a)] SNull None, strict_mode = False\<rparr>"
  have s: "set_value (init False) (Some ''a.b'') (SInt 1) = (Inr (SInt 1), ?t)"
    by (simp add: op_defs split_a_b)
  have w: "walk ?t (Some ''a'') False = Inr (root ?t, Some ([''a''], ?a))"
    by (simp add: walk_def split_a put_child_def)
  have c: "children ?a \<noteq> []"
    by simp
  have g: "fst (get ?t (Some ''a.b'')) = Inr (Scalar (SInt 1))"
    by (simp add: get_unfold [OF split_a_b])
  from set_on_interior_node [OF w c, of "SInt 2"] s g show ?thesis
    by simp
qed

section \<open>Deletion\<close>

text \<open>
  C7. The claim: whenever \<open>delete(p)\<close> returns true, \<open>get(p)\<close> and \<open>get(q)\<close> for every
  \<open>q\<close> below \<open>p\<close> raise the not-found error. \<open>delete\<close> does not walk the parts of
  \<open>p\<close>: it joins all but the last and walks the string, and the walk strips it again.
  When the last part of the parent ends in whitespace the walk looks for another node.
  After \<open>set("a . b", 1)\<close> and \<open>set("a. b", 2)\<close> the tree holds the nodes \<open>"a "\<close> and
  \<open>"a"\<close>, each with a child \<open>" b"\<close>; \<open>delete("a . b")\<close> returns true after removing the
  child of \<open>"a"\<close>, and \<open>get("a . b")\<close> still returns 1.
\<close>

theorem delete_true_leaves_path_readable:
  "set_value (init False) (Some ''a . b'') (SInt 1) =
     (Inr (SInt 1),
      \<lparr>root = Node ''root''
         [(''a '', Node ''a '' [('' b'', Node '' b'' [] (SInt 1) (Some TInt))] SNull None)]
         SNull None,
       strict_mode = False\<rparr>) \<and>
   set_value \<lparr>root = Node ''root''
         [(''a '', Node ''a '' [('' b'', Node '' b'' [] (SInt 1) (Some TInt))] SNull None)]
         SNull None,
       strict_mode = False\<rparr> (Some ''a. b'') (SInt 2) =
     (Inr (SInt 2),
      \<lparr>root = Node ''root''
         [(''a '', Node ''a '' [('' b'', Node '' b'' [] (SInt 1) (Some TInt))] SNull None),
          (''a'', Node ''a'' [('' b'', Node '' b'' [] (SInt 2) (Some TInt))] SNull None)]
         SNull None,
       strict_mode = False\<rparr>) \<and>
   delete \<lparr>root = Node ''root''
         [(''a '', Node ''a '' [('' b'', Node '' b'' [] (SInt 1) (Some TInt))] SNull None),
          (''a'', Node ''a'' [('' b'', Node '' b'' [] (SInt 2) (Some TInt))] SNull None)]
         SNull None,
       strict_mode = False\<rparr> (Some ''a . b'') =
     (Inr True,
      \<lparr>root = Node ''root''
         [(''a '', Node ''a '' [('' b'', Node '' b'' [] (SInt 1) (Some TInt))] SNull None),
          (''a'', Node ''a'' [] SNull None)]
         SNull None,
       strict_mode = False\<rparr>) \<and>
   fst (get \<lparr>root = Node ''root''
         [(''a '', Node ''a '' [('' b'', Node '' b'' [] (SInt 1) (Some TInt))] SNull None),
          (''a'', Node ''a'' [] SNull None)]
         SNull None,
       strict_mode = False\<rparr> (Some ''a . b'')) = Inr (Scalar (SInt 1))"
  by (simp add: op_defs split_a_sp_b split_a_dot_sp_b split_a_sp Let_def)

text \<open>
  C8. The claim: \<open>delete(p)\<close> on a valid path whose parent does not resolve, or whose
  last part is not a child of the parent, returns false, raises nothing and leaves the
  tree as it was. The same detour through the joined parent path breaks it. In the
  tree of \<open>set("a.b", 1)\<close> the path \<open>"a .b"\<close> does not resolve, its parent \<open>"a "\<close> is not
  there, and \<open>delete("a .b")\<close> returns true and removes \<open>a.b\<close>. In the empty tree the
  path \<open>". .b"\<close> is valid and does not resolve, and \<open>delete(". .b")\<close> raises the
  invalid-path error, since its parent path is a single space.
\<close>

theorem delete_of_absent_path_deletes_or_raises:
  "fst (get \<lparr>root = Node ''root''
         [(''a'', Node ''a'' [(''b'', Node ''b'' [] (SInt 1) (Some TInt))] SNull None)]
         SNull None,
       strict_mode = False\<rparr> (Some ''a .b'')) = Inl (ConfigPathNotFoundError ''a .b'') \<and>
   delete \<lparr>root = Node ''root''
         [(''a'', Node ''a'' [(''b'', Node ''b'' [] (SInt 1) (Some TInt))] SNull None)]
         SNull None,
       strict_mode = False\<rparr> (Some ''a .b'') =
     (Inr True,
      \<lparr>root = Node ''root'' [(''a'', Node ''a'' [] SNull None)] SNull None,
       strict_mode = False\<rparr>) \<and>
   fst (get (init False) (Some ''. .b'')) = Inl (ConfigPathNotFoundError ''. .b'') \<and>
   delete (init False) (Some ''. .b'') =
     (Inl (ConfigInvalidPathError '' '' ''Path cannot be empty.''), init False)"
  by (simp add: op_defs split_a_sp_dot_b split_a_sp split_dot_sp_dot_b split_sp Let_def)

section \<open>The segment named root\<close>

text \<open>
  C10. The part \<open>root\<close> is a name like any other. \<open>delete("root")\<close> raises the structure
  error on every tree and changes nothing. On a tree without strict mode whose root has
  no child named \<open>root\<close>, \<open>set("root", v)\<close> appends a leaf named \<open>root\<close> to the children
  of the root, which keeps its own fields; \<open>get("root")\<close> then returns \<open>v\<close>, and
  \<open>delete("root")\<close> still raises, so the leaf cannot be removed by its path. On such a
  tree \<open>get("root.x")\<close> raises the not-found error, whether or not \<open>get("x")\<close> succeeds.
\<close>

theorem root_segment_is_a_child:
  "delete u (Some ''root'') =
     (Inl (ConfigNodeStructureError ''root'' ''Cannot delete root node.''), u) \<and>
   (\<not> strict_mode t \<and> map_of (children (root t)) ''root'' = None \<longrightarrow>
      set_value t (Some ''root'') v =
        (Inr v, t\<lparr>root := Node (name (root t))
                   (children (root t) @ [(''root'', Node ''root'' [] v (Some (infer_type v)))])
                   (val (root t)) (type_tag (root t))\<rparr>) \<and>
      fst (get (snd (set_value t (Some ''root'') v)) (Some ''root'')) = Inr (Scalar v) \<and>
      fst (delete (snd (set_value t (Some ''root'') v)) (Some ''root'')) =
        Inl (ConfigNodeStructureError ''root'' ''Cannot delete root node.'') \<and>
      get t (Some ''root.x'') = (Inl (ConfigPathNotFoundError ''root.x''), t))"
proof -
  have del: "delete w (Some ''root'') =
     (Inl (ConfigNodeStructureError ''root'' ''Cannot delete root node.''), w)" for w
    by (simp add: delete_def split_root)
  {
    assume ns: "\<not> strict_mode t" and ab: "map_of (children (root t)) ''root'' = None"
    have leaf: "assign v (new_node ''root'') = Node ''root'' [] v (Some (infer_type v))"
      by (simp add: assign_def new_node_def)
    have s: "set_value t (Some ''root'') v =
        (Inr v, t\<lparr>root := Node (name (root t))
                   (children (root t) @ [(''root'', Node ''root'' [] v (Some (infer_type v)))])
                   (val (root t)) (type_tag (root t))\<rparr>)"
      by (simp add: set_new_leaf [OF ns ab split_root] put_child_absent [OF ab] leaf)
    have "node_at (put_child (root t) ''root'' (assign v (new_node ''root''))) [''root''] =
        Some (assign v (new_node ''root''))"
      by (simp add: children_put_child)
    then have g: "fst (get (snd (set_value t (Some ''root'') v)) (Some ''root'')) =
        Inr (Scalar v)"
      by (simp add: set_new_leaf [OF ns ab split_root] get_unfold [OF split_root]
          to_primitive_assign del: node_at.simps)
    have x: "get t (Some ''root.x'') = (Inl (ConfigPathNotFoundError ''root.x''), t)"
      using ab by (simp add: get_unfold [OF split_root_x])
    note s g x
  }
  with del show ?thesis by simp
qed

theorem root_segment_is_a_child_witness:
  "fst (get \<lparr>root = Node ''root'' [(''x'', Node ''x'' [] (SInt 1) (Some TInt))] SNull None,
       strict_mode = False\<rparr> (Some ''x'')) = Inr (Scalar (SInt 1)) \<and>
   fst (get \<lparr>root = Node ''root'' [(''x'', Node ''x'' [] (SInt 1) (Some TInt))] SNull None,
       strict_mode = False\<rparr> (Some ''root.x'')) = Inl (ConfigPathNotFoundError ''root.x'') \<and>
   set_value \<lparr>root = Node ''root'' [(''x'', Node ''x'' [] (SInt 1) (Some TInt))] SNull None,
       strict_mode = False\<rparr> (Some ''root'') (SStr ''v'') =
     (Inr (SStr ''v''),
      \<lparr>root = Node ''root''
         [(''x'', Node ''x'' [] (SInt 1) (Some TInt)),
          (''root'', Node ''root'' [] (SStr ''v'') (Some TStr))] SNull None,
       strict_mode = False\<rparr>) \<and>
   fst (get \<lparr>root = Node ''root''
         [(''x'', Node ''x'' [] (SInt 1) (Some TInt)),
          (''root'', Node ''root'' [] (SStr ''v'') (Some TStr))] SNull None,
       strict_mode = False\<rparr> (Some ''root'')) = Inr (Scalar (SStr ''v'')) \<and>
   delete \<lparr>root = Node ''root''
         [(''x'', Node ''x'' [] (SInt 1) (Some TInt)),
          (''root'', Node ''root'' [] (SStr ''v'') (Some TStr))] SNull None,
       strict_mode = False\<rparr> (Some ''root'') =
     (Inl (ConfigNodeStructureError ''root'' ''Cannot delete root node.''),
      \<lparr>root = Node ''root''
         [(''x'', Node ''x'' [] (SInt 1) (Some TInt)),
          (''root'', Node ''root'' [] (SStr ''v'') (Some TStr))] SNull None,
       strict_mode = False\<rparr>)"
proof -
  let ?t = "\<lparr>root = Node ''root'' [(''x'', Node ''x'' [] (SInt 1) (Some TInt))] SNull None,
       strict_mode = False\<rparr>"
  let ?t' = "\<lparr>root = Node ''root''
         [(''x'', Node ''x'' [] (SInt 1) (Some TInt)),
          (''root'', Node ''root'' [] (SStr ''v'') (Some TStr))] SNull None,
       strict_mode = False\<rparr>"
  have h: "\<not> strict_mode ?t \<and> map_of (children (root ?t)) ''root'' = None"
    by simp
  have gx: "fst (get ?t (Some ''x'')) = Inr (Scalar (SInt 1))"
    by (simp add: get_unfold [OF split_x])
  note r = root_segment_is_a_child [of ?t' ?t "SStr ''v''"]
  note c = r [THEN conjunct2, THEN mp, OF h]
  from r have d: "delete ?t' (Some ''root'') =
      (Inl (ConfigNodeStructureError ''root'' ''Cannot delete root node.''), ?t')"
    by simp
  from c have s: "set_value ?t (Some ''root'') (SStr ''v'') = (Inr (SStr ''v''), ?t')"
    by simp
  from c [THEN conjunct2, THEN conjunct1]
  have g': "fst (get ?t' (Some ''root'')) = Inr (Scalar (SStr ''v''))"
    by (simp add: s)
  from c have x: "get ?t (Some ''root.x'') = (Inl (ConfigPathNotFoundError ''root.x''), ?t)"
    by simp
  from d s g' x gx show ?thesis
    by simp
qed

end
